theory Spec2Isabelle
  imports Complex_Main "HOL-Library.Multiset"
begin

section \<open>Returns Hub: the disposition routing engine\<close>

text \<open>
  A shallow embedding of \<^verbatim>\<open>app/services/routing.server.ts\<close>: the condition
  evaluator, the rule selector, the context builder and the rule-set validator.

  Conventions of the embedding.
  \<^item> A TypeScript optional field (\<^verbatim>\<open>x?: T\<close>) is a \<open>T option\<close>; \<open>None\<close> is
    \<^verbatim>\<open>undefined\<close>. A joined relation that may be \<^verbatim>\<open>null\<close> is an option too.
  \<^item> A JavaScript string is a list of UTF-16 code units. The embedding covers the code
    units \<open>0\<close> to \<open>255\<close> (ASCII and the Latin-1 supplement), one \<open>char\<close> each, and
    gives \<^verbatim>\<open>toLowerCase\<close>, \<^verbatim>\<open>trim\<close>, \<^verbatim>\<open>includes\<close> (\<open>str_includes\<close>) and \<^verbatim>\<open>parseFloat\<close>
    their ECMAScript meaning on that range.
  \<^item> A JavaScript number is \<open>NaN\<close>, an infinity or a finite value; \<open>+0\<close> and \<open>-0\<close>
    are one value, since the code only compares numbers. \<^verbatim>\<open>parseFloat\<close> rounds
    the decimal value it reads to the nearest binary64 value, ties to even (ECMAScript
    leaves the engine a choice between two neighbours beyond the 20th significant digit;
    this is the choice of the engines in use).
  \<^item> \<^verbatim>\<open>priority\<close> is a Prisma \<^verbatim>\<open>Int\<close> (a 32-bit column); subtraction of two such
    values is exact in JavaScript, so it is an \<open>int\<close> here.
\<close>

subsection \<open>Strings\<close>

definition lower_char :: "char \<Rightarrow> char" where
  "lower_char c =
     (let n = (of_char c :: nat)
      in if (65 \<le> n \<and> n \<le> 90) \<or> (192 \<le> n \<and> n \<le> 222 \<and> n \<noteq> 215)
         then char_of (n + 32) else c)"

definition toLowerCase :: "string \<Rightarrow> string" where
  "toLowerCase s = map lower_char s"

text \<open>White space and line terminators of ECMAScript below code unit 256.\<close>

definition is_ws :: "char \<Rightarrow> bool" where
  "is_ws c = ((of_char c :: nat) \<in> {9, 10, 11, 12, 13, 32, 160})"

definition trim :: "string \<Rightarrow> string" where
  "trim s = rev (dropWhile is_ws (rev (dropWhile is_ws s)))"

fun startsWith :: "string \<Rightarrow> string \<Rightarrow> bool" where
  "startsWith s [] = True"
| "startsWith [] (c # t) = False"
| "startsWith (a # s) (c # t) = (a = c \<and> startsWith s t)"

fun str_includes :: "string \<Rightarrow> string \<Rightarrow> bool" where
  "str_includes [] t = (t = [])"
| "str_includes (a # s) t = (startsWith (a # s) t \<or> str_includes s t)"

subsection \<open>Numbers and \<^verbatim>\<open>parseFloat\<close>\<close>

datatype number = NaN | NegInfinity | Finite rat | PosInfinity

definition isNaN :: "number \<Rightarrow> bool" where
  "isNaN x = (x = NaN)"

text \<open>The relational operator \<^verbatim>\<open><\<close> on numbers; \<^verbatim>\<open>a > b\<close> is \<open>num_less b a\<close>.\<close>

fun num_less :: "number \<Rightarrow> number \<Rightarrow> bool" where
  "num_less NaN y = False"
| "num_less x NaN = False"
| "num_less NegInfinity NegInfinity = False"
| "num_less NegInfinity y = True"
| "num_less (Finite a) NegInfinity = False"
| "num_less (Finite a) (Finite b) = (a < b)"
| "num_less (Finite a) PosInfinity = True"
| "num_less PosInfinity y = False"

definition num_greater :: "number \<Rightarrow> number \<Rightarrow> bool" where
  "num_greater x y = num_less y x"

definition is_digit :: "char \<Rightarrow> bool" where
  "is_digit c = (48 \<le> (of_char c :: nat) \<and> (of_char c :: nat) \<le> 57)"

definition digits_val :: "string \<Rightarrow> int" where
  "digits_val ds = foldl (\<lambda>acc c. 10 * acc + ((of_char c :: int) - 48)) 0 ds"

text \<open>The number of binary digits of a positive integer.\<close>

fun bit_length :: "int \<Rightarrow> int" where
  "bit_length n = (if n \<le> 0 then 0 else 1 + bit_length (n div 2))"

text \<open>For \<open>a > 0\<close>, the integer \<open>e\<close> with \<open>2 ^ e \<le> a < 2 ^ (e + 1)\<close>.\<close>

definition floor_log2 :: "rat \<Rightarrow> int" where
  "floor_log2 a =
     (let (n, d) = quotient_of a;
          k = bit_length n - bit_length d
      in if power_int 2 k \<le> a then k else k - 1)"

definition round_half_even :: "rat \<Rightarrow> int" where
  "round_half_even m =
     (let f = \<lfloor>m\<rfloor>; r = m - of_int f
      in if r < 1 / 2 then f
         else if 1 / 2 < r then f + 1
         else if even f then f else f + 1)"

text \<open>The Number value of a rational: binary64, round to nearest, ties to even.\<close>

definition to_double :: "rat \<Rightarrow> number" where
  "to_double q =
     (if q = 0 then Finite 0
      else
        let a = \<bar>q\<bar>;
            e = floor_log2 a;
            u = max (e - 52) (- 1074);
            m = round_half_even (a / power_int 2 u);
            v = of_int m * power_int 2 u
        in if 2 ^ 1024 \<le> v then (if q < 0 then NegInfinity else PosInfinity)
           else Finite (if q < 0 then - v else v))"

text \<open>The value of an optional \<^verbatim>\<open>ExponentPart\<close> at the head of the rest of the input.\<close>

definition parse_exponent :: "string \<Rightarrow> int" where
  "parse_exponent r =
     (case r of
        [] \<Rightarrow> 0
      | c # r' \<Rightarrow>
          if c = CHR ''e'' \<or> c = CHR ''E'' then
            (case r' of
               [] \<Rightarrow> 0
             | s # d \<Rightarrow>
                 if s = CHR ''+'' then digits_val (takeWhile is_digit d)
                 else if s = CHR ''-'' then - digits_val (takeWhile is_digit d)
                 else digits_val (takeWhile is_digit r'))
          else 0)"

text \<open>
  \<^verbatim>\<open>parseFloat\<close>: skip leading white space, read the longest prefix that is a
  \<^verbatim>\<open>StrDecimalLiteral\<close> (a sign, then \<^verbatim>\<open>Infinity\<close> or digits with an optional
  fraction and exponent), and return its Number value; \<open>NaN\<close> when there is no such prefix.
\<close>

definition parseFloat :: "string \<Rightarrow> number" where
  "parseFloat inputString =
     (let trimmed = dropWhile is_ws inputString;
          (neg, u) = (case trimmed of
                        [] \<Rightarrow> (False, [])
                      | c # r \<Rightarrow> if c = CHR ''-'' then (True, r)
                                else if c = CHR ''+'' then (False, r)
                                else (False, trimmed))
      in if startsWith u ''Infinity'' then (if neg then NegInfinity else PosInfinity)
         else
           let ip = takeWhile is_digit u;
               r1 = dropWhile is_digit u;
               (fp, r2) = (case r1 of
                             [] \<Rightarrow> ([], r1)
                           | c # r \<Rightarrow> if c = CHR ''.''
                                       then (takeWhile is_digit r, dropWhile is_digit r)
                                       else ([], r1))
           in if ip = [] \<and> fp = [] then NaN
              else
                let mv = of_int (digits_val (ip @ fp))
                           * power_int 10 (parse_exponent r2 - int (length fp))
                in to_double (if neg then - mv else mv))"

subsection \<open>Data model\<close>

record ReturnDestination =
  dest_id :: string
  dest_shop :: string
  dest_name :: string
  addressLine1 :: string
  addressLine2 :: "string option"
  city :: string
  dest_state :: string
  postalCode :: string
  country :: string
  phone :: "string option"
  isDefault :: bool
  dest_createdAt :: int
  dest_updatedAt :: int

record RoutingRule =
  rule_id :: string
  rule_shop :: string
  rule_name :: string
  priority :: int
  isActive :: bool
  conditionType :: string
  conditionValue :: string
  destinationId :: string
  rule_createdAt :: int
  rule_updatedAt :: int

text \<open>
  \<^verbatim>\<open>RuleWithDestination extends RoutingRule\<close> with the joined destination. The
  validator tests \<^verbatim>\<open>!rule.destination\<close>, so the join may be \<^verbatim>\<open>null\<close>.
\<close>

record RuleWithDestination = RoutingRule +
  destination :: "ReturnDestination option"

record Item =
  productType :: "string option"
  productTags :: "string list option"
  productVendor :: "string option"
  sku :: "string option"

record RoutingContext =
  orderValue :: number
  returnReason :: "string option"
  customerTags :: "string list option"
  items :: "Item list"

subsection \<open>JavaScript operators used by the evaluator\<close>

text \<open>\<^verbatim>\<open>recv?.m()\<close>: \<^verbatim>\<open>undefined\<close> when the receiver is, the call's value otherwise.\<close>

definition opt_chain :: "'a option \<Rightarrow> ('a \<Rightarrow> 'b) \<Rightarrow> 'b option" where
  "opt_chain recv m = (case recv of None \<Rightarrow> None | Some v \<Rightarrow> Some (m v))"

text \<open>\<^verbatim>\<open>x === s\<close> for a string \<open>s\<close>: \<^verbatim>\<open>undefined\<close> is equal to no string.\<close>

definition strict_eq :: "string option \<Rightarrow> string \<Rightarrow> bool" where
  "strict_eq x s = (case x of None \<Rightarrow> False | Some v \<Rightarrow> v = s)"

text \<open>\<^verbatim>\<open>ToBoolean\<close> on \<^verbatim>\<open>boolean | undefined\<close>, applied by \<^verbatim>\<open>some\<close> to its callback's result.\<close>

definition truthy :: "bool option \<Rightarrow> bool" where
  "truthy x = (case x of None \<Rightarrow> False | Some b \<Rightarrow> b)"

text \<open>\<^verbatim>\<open>x ?? d\<close>.\<close>

definition nullish :: "'a option \<Rightarrow> 'a \<Rightarrow> 'a" where
  "nullish x d = (case x of None \<Rightarrow> d | Some v \<Rightarrow> v)"

text \<open>\<^verbatim>\<open>Array.prototype.some\<close>.\<close>

fun array_some :: "'a list \<Rightarrow> ('a \<Rightarrow> bool) \<Rightarrow> bool" where
  "array_some [] p = False"
| "array_some (x # xs) p = (if p x then True else array_some xs p)"

subsection \<open>Condition evaluator\<close>

definition evaluateCondition :: "'a RoutingRule_scheme \<Rightarrow> RoutingContext \<Rightarrow> bool" where
  "evaluateCondition rule context =
     (let normalizedValue = trim (toLowerCase (conditionValue rule))
      in if conditionType rule = ''product_type'' then
           array_some (items context)
             (\<lambda>item. strict_eq (opt_chain (productType item) toLowerCase) normalizedValue)
         else if conditionType rule = ''product_tag'' then
           array_some (items context)
             (\<lambda>item. truthy (opt_chain (productTags item)
                (\<lambda>tags. array_some tags (\<lambda>tag. toLowerCase tag = normalizedValue))))
         else if conditionType rule = ''product_vendor'' then
           array_some (items context)
             (\<lambda>item. strict_eq (opt_chain (productVendor item) toLowerCase) normalizedValue)
         else if conditionType rule = ''sku_contains'' then
           array_some (items context)
             (\<lambda>item. truthy (opt_chain (sku item)
                (\<lambda>s. str_includes (toLowerCase s) normalizedValue)))
         else if conditionType rule = ''order_value_above'' then
           (let minValue = parseFloat (conditionValue rule)
            in \<not> isNaN minValue \<and> num_greater (orderValue context) minValue)
         else if conditionType rule = ''order_value_below'' then
           (let maxValue = parseFloat (conditionValue rule)
            in \<not> isNaN maxValue \<and> num_less (orderValue context) maxValue)
         else if conditionType rule = ''return_reason'' then
           strict_eq (opt_chain (returnReason context) toLowerCase) normalizedValue
         else if conditionType rule = ''customer_tag'' then
           nullish (opt_chain (customerTags context)
                      (\<lambda>tags. array_some tags (\<lambda>tag. toLowerCase tag = normalizedValue)))
                   False
         else False)"

subsection \<open>The evaluator with \<^verbatim>\<open>undefined\<close> and \<^verbatim>\<open>TypeError\<close> as values\<close>

text \<open>
  JavaScript throws a \<^verbatim>\<open>TypeError\<close> when a method is called on \<^verbatim>\<open>undefined\<close>.
  \<open>call\<close> is the member call \<^verbatim>\<open>recv.m(...)\<close>, which throws on an undefined
  receiver; \<open>opt_call\<close> is the optional chain \<^verbatim>\<open>recv?.m(...)\<close>, which yields
  \<^verbatim>\<open>undefined\<close> for the whole chain instead. A receiver whose type is not optional
  is \<open>Some v\<close>. \<open>and_then\<close> passes a value on and an exception through.
\<close>

datatype js_error = TypeError

definition call :: "'a option \<Rightarrow> ('a \<Rightarrow> js_error + 'b) \<Rightarrow> js_error + 'b" where
  "call recv m = (case recv of None \<Rightarrow> Inl TypeError | Some v \<Rightarrow> m v)"

definition opt_call :: "'a option \<Rightarrow> ('a \<Rightarrow> js_error + 'b) \<Rightarrow> js_error + 'b option" where
  "opt_call recv m =
     (case recv of
        None \<Rightarrow> Inr None
      | Some v \<Rightarrow> (case m v of Inl e \<Rightarrow> Inl e | Inr x \<Rightarrow> Inr (Some x)))"

definition and_then :: "js_error + 'a \<Rightarrow> ('a \<Rightarrow> js_error + 'b) \<Rightarrow> js_error + 'b" where
  "and_then x f = (case x of Inl e \<Rightarrow> Inl e | Inr v \<Rightarrow> f v)"

text \<open>
  \<^verbatim>\<open>Array.prototype.some\<close> with a callback that may throw and whose result
  (\<^verbatim>\<open>boolean | undefined\<close>) is taken through \<^verbatim>\<open>ToBoolean\<close>.
\<close>

fun some_run :: "'a list \<Rightarrow> ('a \<Rightarrow> js_error + bool option) \<Rightarrow> js_error + bool" where
  "some_run [] callback = Inr False"
| "some_run (x # xs) callback =
     (case callback x of
        Inl e \<Rightarrow> Inl e
      | Inr v \<Rightarrow> if truthy v then Inr True else some_run xs callback)"

text \<open>
  \<^verbatim>\<open>evaluateCondition\<close> once more, member call by member call: the outcome is an
  exception (\<open>Inl\<close>) or the returned value (\<open>Inr\<close>), which is \<^verbatim>\<open>undefined\<close>
  (\<open>None\<close>) or a boolean (\<open>Some b\<close>).
\<close>

definition evaluateCondition_run ::
  "'a RoutingRule_scheme \<Rightarrow> RoutingContext \<Rightarrow> js_error + bool option" where
  "evaluateCondition_run rule context =
     and_then (call (Some (conditionValue rule)) (\<lambda>s. Inr (trim (toLowerCase s))))
       (\<lambda>normalizedValue.
          if conditionType rule = ''product_type'' then
            and_then
              (call (Some (items context)) (\<lambda>arr. some_run arr
                 (\<lambda>item. and_then (opt_call (productType item) (\<lambda>s. Inr (toLowerCase s)))
                    (\<lambda>x. Inr (Some (strict_eq x normalizedValue))))))
              (\<lambda>b. Inr (Some b))
          else if conditionType rule = ''product_tag'' then
            and_then
              (call (Some (items context)) (\<lambda>arr. some_run arr
                 (\<lambda>item. opt_call (productTags item) (\<lambda>ts. some_run ts
                    (\<lambda>tag. and_then (call (Some tag) (\<lambda>s. Inr (toLowerCase s)))
                       (\<lambda>x. Inr (Some (x = normalizedValue))))))))
              (\<lambda>b. Inr (Some b))
          else if conditionType rule = ''product_vendor'' then
            and_then
              (call (Some (items context)) (\<lambda>arr. some_run arr
                 (\<lambda>item. and_then (opt_call (productVendor item) (\<lambda>s. Inr (toLowerCase s)))
                    (\<lambda>x. Inr (Some (strict_eq x normalizedValue))))))
              (\<lambda>b. Inr (Some b))
          else if conditionType rule = ''sku_contains'' then
            and_then
              (call (Some (items context)) (\<lambda>arr. some_run arr
                 (\<lambda>item. opt_call (sku item)
                    (\<lambda>s. Inr (str_includes (toLowerCase s) normalizedValue)))))
              (\<lambda>b. Inr (Some b))
          else if conditionType rule = ''order_value_above'' then
            (let minValue = parseFloat (conditionValue rule)
             in Inr (Some (\<not> isNaN minValue \<and> num_greater (orderValue context) minValue)))
          else if conditionType rule = ''order_value_below'' then
            (let maxValue = parseFloat (conditionValue rule)
             in Inr (Some (\<not> isNaN maxValue \<and> num_less (orderValue context) maxValue)))
          else if conditionType rule = ''return_reason'' then
            and_then (opt_call (returnReason context) (\<lambda>s. Inr (toLowerCase s)))
              (\<lambda>x. Inr (Some (strict_eq x normalizedValue)))
          else if conditionType rule = ''customer_tag'' then
            and_then
              (opt_call (customerTags context) (\<lambda>ts. some_run ts
                 (\<lambda>tag. and_then (call (Some tag) (\<lambda>s. Inr (toLowerCase s)))
                    (\<lambda>x. Inr (Some (x = normalizedValue))))))
              (\<lambda>v. Inr (Some (nullish v False)))
          else Inr (Some False))"

subsection \<open>Rule selector\<close>

text \<open>
  \<^verbatim>\<open>Array.prototype.sort\<close> with a comparator is a stable sort: \<open>a\<close> comes before
  \<open>b\<close> when \<open>cmp a b < 0\<close>, after it when \<open>cmp a b > 0\<close>, and equal elements stay in
  their input order. Here as an insertion sort from the right.
\<close>

fun sort_insert :: "('a \<Rightarrow> 'a \<Rightarrow> int) \<Rightarrow> 'a \<Rightarrow> 'a list \<Rightarrow> 'a list" where
  "sort_insert cmp x [] = [x]"
| "sort_insert cmp x (y # ys) =
     (if cmp x y \<le> 0 then x # y # ys else y # sort_insert cmp x ys)"

fun array_sort :: "('a \<Rightarrow> 'a \<Rightarrow> int) \<Rightarrow> 'a list \<Rightarrow> 'a list" where
  "array_sort cmp [] = []"
| "array_sort cmp (x # xs) = sort_insert cmp x (array_sort cmp xs)"

text \<open>The \<^verbatim>\<open>for ... of\<close> loop of \<^verbatim>\<open>findMatchingDestination\<close> and its final \<^verbatim>\<open>return null\<close>.\<close>

fun first_match :: "RuleWithDestination list \<Rightarrow> RoutingContext \<Rightarrow> ReturnDestination option" where
  "first_match [] context = None"
| "first_match (rule # rest) context =
     (if evaluateCondition rule context then destination rule else first_match rest context)"

definition findMatchingDestination ::
  "RuleWithDestination list \<Rightarrow> RoutingContext \<Rightarrow> ReturnDestination option" where
  "findMatchingDestination rules context =
     (let sortedRules = array_sort (\<lambda>a b. priority a - priority b) (filter isActive rules)
      in first_match sortedRules context)"

subsection \<open>Context builder\<close>

record OrderData =
  totalValue :: number
  lineItems :: "Item list"

record ReturnData =
  reason :: "string option"

record CustomerData =
  tags :: "string list option"

definition buildRoutingContext ::
  "OrderData \<Rightarrow> ReturnData \<Rightarrow> CustomerData option \<Rightarrow> RoutingContext" where
  "buildRoutingContext orderData returnData customerData =
     \<lparr> orderValue = totalValue orderData,
       returnReason = reason returnData,
       customerTags = (case customerData of None \<Rightarrow> None | Some cd \<Rightarrow> tags cd),
       items = lineItems orderData \<rparr>"

subsection \<open>Rule-set validator\<close>

text \<open>
  \<^verbatim>\<open>validateRoutingRules(shop)\<close> reads the shop's rules (joined with their
  destinations) and its destinations from the database and then computes its report from
  these two lists alone. The two query results are the arguments here.
\<close>

text \<open>
  A template literal's \<^verbatim>\<open>${n}\<close> for an integer \<open>n\<close> in the range of a
  32-bit column: its decimal numeral.
\<close>

fun string_of_nat :: "nat \<Rightarrow> string" where
  "string_of_nat n =
     (if n < 10 then [char_of (48 + n)]
      else string_of_nat (n div 10) @ [char_of (48 + n mod 10)])"

definition string_of_int :: "int \<Rightarrow> string" where
  "string_of_int i = (if i < 0 then CHR ''-'' # string_of_nat (nat (- i)) else string_of_nat (nat i))"

text \<open>
  A JavaScript \<^verbatim>\<open>Map\<close> keeps its keys in insertion order: an association list,
  where \<^verbatim>\<open>set\<close> overwrites an existing key in place and appends a new one.
\<close>

fun map_get :: "('k \<times> 'v) list \<Rightarrow> 'k \<Rightarrow> 'v option" where
  "map_get [] k = None"
| "map_get ((k', v) # m) k = (if k' = k then Some v else map_get m k)"

fun map_set :: "('k \<times> 'v) list \<Rightarrow> 'k \<Rightarrow> 'v \<Rightarrow> ('k \<times> 'v) list" where
  "map_set [] k v = [(k, v)]"
| "map_set ((k', v') # m) k v = (if k' = k then (k, v) # m else (k', v') # map_set m k v)"

text \<open>\<^verbatim>\<open>x || 0\<close> on \<^verbatim>\<open>number | undefined\<close>.\<close>

definition or_zero :: "nat option \<Rightarrow> nat" where
  "or_zero x = (case x of None \<Rightarrow> 0 | Some c \<Rightarrow> if c = 0 then 0 else c)"

record ValidationResult =
  valid :: bool
  issues :: "string list"

definition no_destinations_issue :: string where
  "no_destinations_issue = ''No return destinations configured''"

definition no_default_issue :: string where
  "no_default_issue =
     ''No default destination set - returns without matching rules will have no destination''"

text \<open>The template literals; \<open>CHR 0x22\<close> is the double quote.\<close>

definition deleted_destination_issue :: "string \<Rightarrow> string" where
  "deleted_destination_issue n = ''Rule '' @ [CHR 0x22] @ n @ [CHR 0x22] @ '' references a deleted destination''"

definition invalid_numeric_issue :: "string \<Rightarrow> string \<Rightarrow> string" where
  "invalid_numeric_issue n v = ''Rule '' @ [CHR 0x22] @ n @ [CHR 0x22] @ '' has invalid numeric value: '' @ v"

definition duplicate_priority_issue :: "int \<Rightarrow> string" where
  "duplicate_priority_issue p =
     ''Multiple active rules have the same priority ('' @ string_of_int p
       @ '') - order may be unpredictable''"

text \<open>
  The first loop over the rules: \<open>check_rule\<close> is its body, \<open>acc\<close> the
  \<^verbatim>\<open>issues\<close> array so far.
\<close>

definition check_rule :: "RuleWithDestination \<Rightarrow> string list \<Rightarrow> string list" where
  "check_rule rule acc =
     (let acc1 = (if destination rule = None
                  then acc @ [deleted_destination_issue (rule_name rule)] else acc)
      in if conditionType rule = ''order_value_above''
            \<or> conditionType rule = ''order_value_below''
         then (let v = parseFloat (conditionValue rule)
               in if isNaN v
                  then acc1 @ [invalid_numeric_issue (rule_name rule) (conditionValue rule)]
                  else acc1)
         else acc1)"

fun check_rules :: "RuleWithDestination list \<Rightarrow> string list \<Rightarrow> string list" where
  "check_rules [] acc = acc"
| "check_rules (rule # rest) acc = check_rules rest (check_rule rule acc)"

text \<open>The loop that fills \<^verbatim>\<open>priorityCounts\<close>.\<close>

fun count_priorities :: "RuleWithDestination list \<Rightarrow> (int \<times> nat) list \<Rightarrow> (int \<times> nat) list" where
  "count_priorities [] priorityCounts = priorityCounts"
| "count_priorities (rule # rest) priorityCounts =
     (let cnt = or_zero (map_get priorityCounts (priority rule))
      in count_priorities rest (map_set priorityCounts (priority rule) (cnt + 1)))"

text \<open>The loop over the entries of \<^verbatim>\<open>priorityCounts\<close>.\<close>

fun report_duplicates :: "(int \<times> nat) list \<Rightarrow> string list \<Rightarrow> string list" where
  "report_duplicates [] acc = acc"
| "report_duplicates ((p, cnt) # rest) acc =
     report_duplicates rest (if 1 < cnt then acc @ [duplicate_priority_issue p] else acc)"

definition validateRoutingRules ::
  "RuleWithDestination list \<Rightarrow> ReturnDestination list \<Rightarrow> ValidationResult" where
  "validateRoutingRules rules destinations =
     (let issues0 = [];
          issues1 = (if length destinations = 0
                     then issues0 @ [no_destinations_issue] else issues0);
          hasDefault = array_some destinations isDefault;
          issues2 = (if \<not> hasDefault \<and> 0 < length destinations
                     then issues1 @ [no_default_issue] else issues1);
          issues3 = check_rules rules issues2;
          priorityCounts = count_priorities (filter isActive rules) [];
          issues4 = report_duplicates priorityCounts issues3
      in \<lparr> valid = (length issues4 = 0), issues = issues4 \<rparr>)"

section \<open>Specification-side notions\<close>

text \<open>These definitions follow the words of the specification, not the code.\<close>

subsection \<open>The reference selection\<close>

text \<open>
  \<open>ys\<close> is \<open>xs\<close> sorted ascending by priority with a stable sort: the same rules,
  in ascending priority, and the rules of each priority in their input order.
\<close>

definition stable_priority_sort ::
  "RuleWithDestination list \<Rightarrow> RuleWithDestination list \<Rightarrow> bool" where
  "stable_priority_sort xs ys =
     (mset ys = mset xs \<and> sorted (map priority ys)
      \<and> (\<forall>k\<in>set xs. filter (\<lambda>x. priority x = priority k) ys
                        = filter (\<lambda>x. priority x = priority k) xs))"

text \<open>The destination of the first rule of \<open>ys\<close> whose condition holds, else \<^verbatim>\<open>null\<close>.\<close>

definition first_matching_destination ::
  "RuleWithDestination list \<Rightarrow> RoutingContext \<Rightarrow> ReturnDestination option" where
  "first_matching_destination ys c =
     (case find (\<lambda>r. evaluateCondition r c) ys of None \<Rightarrow> None | Some r \<Rightarrow> destination r)"

subsection \<open>The recognised condition types\<close>

definition condition_types :: "string list" where
  "condition_types =
     [''product_type'', ''product_tag'', ''product_vendor'', ''sku_contains'',
      ''order_value_above'', ''order_value_below'', ''return_reason'', ''customer_tag'']"

subsection \<open>Letter case\<close>

text \<open>
  The upper-case form of a single code unit, for the code units below 256 whose upper-case
  form is one code unit below 256.
\<close>

definition upper_char :: "char \<Rightarrow> char" where
  "upper_char c =
     (let n = (of_char c :: nat)
      in if (97 \<le> n \<and> n \<le> 122) \<or> (224 \<le> n \<and> n \<le> 254 \<and> n \<noteq> 247)
         then char_of (n - 32) else c)"



text \<open>Two strings with the same lower-case form, and contexts whose strings are so related.\<close>

definition same_lower :: "string \<Rightarrow> string \<Rightarrow> bool" where
  "same_lower s t = (toLowerCase s = toLowerCase t)"



subsection \<open>The issues before the loops of the validator\<close>

definition initial_issues :: "ReturnDestination list \<Rightarrow> string list" where
  "initial_issues dests =
     (if dests = [] then [no_destinations_issue] else [])
       @ (if \<not> (\<exists>d\<in>set dests. isDefault d) \<and> dests \<noteq> [] then [no_default_issue] else [])"

section \<open>Example data\<close>

text \<open>The fixtures of the repository's tests (\<^verbatim>\<open>test/fixtures\<close>, \<^verbatim>\<open>routing.server.test.ts\<close>).\<close>

definition mockShop :: string where
  "mockShop = ''test-store.myshopify.com''"

definition mockReturnDestination :: ReturnDestination where
  "mockReturnDestination =
     \<lparr> dest_id = ''dest_123'', dest_shop = mockShop, dest_name = ''Main Warehouse'',
       addressLine1 = ''123 Warehouse St'', addressLine2 = Some ''Suite 100'',
       city = ''San Francisco'', dest_state = ''CA'', postalCode = ''94102'',
       country = ''US'', phone = Some ''415-555-1234'', isDefault = True,
       dest_createdAt = 1704067200000, dest_updatedAt = 1704067200000 \<rparr>"

definition mockRoutingRule :: RuleWithDestination where
  "mockRoutingRule =
     \<lparr> rule_id = ''rule_123'', rule_shop = mockShop, rule_name = ''Electronics to Warehouse B'',
       priority = 1, isActive = True, conditionType = ''product_type'',
       conditionValue = ''Electronics'', destinationId = ''dest_123'',
       rule_createdAt = 1704067200000, rule_updatedAt = 1704067200000,
       destination = Some mockReturnDestination \<rparr>"

definition baseContext :: RoutingContext where
  "baseContext =
     \<lparr> orderValue = Finite 100, returnReason = Some ''defective'',
       customerTags = Some [''vip'', ''wholesale''],
       items = [\<lparr> productType = Some ''Electronics'',
                  productTags = Some [''featured'', ''sale''],
                  productVendor = Some ''Acme Corp'',
                  sku = Some ''ELEC-001-BLK'' \<rparr>] \<rparr>"




text \<open>A context in which every optional field is unset.\<close>

definition bareContext :: RoutingContext where
  "bareContext =
     \<lparr> orderValue = Finite 50, returnReason = None, customerTags = None,
       items = [\<lparr> productType = None, productTags = None,
                  productVendor = None, sku = None \<rparr>] \<rparr>"

definition destA :: ReturnDestination where
  "destA = mockReturnDestination\<lparr>dest_id := ''dest_a'', dest_name := ''Warehouse A''\<rparr>"

definition destB :: ReturnDestination where
  "destB = mockReturnDestination\<lparr>dest_id := ''dest_b'', dest_name := ''Warehouse B''\<rparr>"

definition rule_1 :: RuleWithDestination where
  "rule_1 = mockRoutingRule\<lparr>rule_id := ''rule_1'', priority := 2,
              conditionType := ''product_type'', conditionValue := ''Electronics'',
              destination := Some destB\<rparr>"

definition rule_2 :: RuleWithDestination where
  "rule_2 = mockRoutingRule\<lparr>rule_id := ''rule_2'', priority := 1,
              conditionType := ''order_value_above'', conditionValue := ''50'',
              destination := Some destA\<rparr>"

text \<open>A matching rule whose destination was deleted.\<close>

definition rule_dangling :: RuleWithDestination where
  "rule_dangling = mockRoutingRule\<lparr>rule_id := ''rule_0'', priority := 1, destination := None\<rparr>"

definition selectorContext :: RoutingContext where
  "selectorContext =
     \<lparr> orderValue = Finite 100, returnReason = None, customerTags = None,
       items = [\<lparr> productType = Some ''Electronics'', productTags = None,
                  productVendor = None, sku = None \<rparr>] \<rparr>"

section \<open>Properties of the building blocks\<close>

declare string_of_nat.simps [simp del]

subsection \<open>Arrays and strings\<close>

lemma array_some_iff: "array_some xs p \<longleftrightarrow> (\<exists>x\<in>set xs. p x)"
  by (induction xs) auto




lemma str_includes_Nil: "str_includes s []"
  by (cases s) simp_all

lemma lower_char_ws: "is_ws ch \<Longrightarrow> lower_char ch = ch"
  by (auto simp: is_ws_def lower_char_def)

lemma toLowerCase_ws: "\<forall>ch\<in>set v. is_ws ch \<Longrightarrow> toLowerCase v = v"
  by (induction v) (auto simp: toLowerCase_def lower_char_ws)

lemma trim_ws: "\<forall>ch\<in>set v. is_ws ch \<Longrightarrow> trim v = []"
proof -
  assume "\<forall>ch\<in>set v. is_ws ch"
  then have d: "dropWhile is_ws v = []" by simp
  show ?thesis unfolding trim_def d by simp
qed

lemma lower_char_idem: "lower_char (lower_char a) = lower_char a"
  by (auto simp: lower_char_def Let_def)

lemma lower_upper_char: "lower_char (upper_char a) = lower_char a"
  by (auto simp: lower_char_def upper_char_def Let_def)

text \<open>
  Changing single letters to their lower-case or to their one-unit upper-case form keeps
  the lower-case form of a string.
\<close>

lemma same_lower_toLowerCase: "same_lower (toLowerCase s) s"
  by (simp add: same_lower_def toLowerCase_def lower_char_idem)

lemma same_lower_upper_char: "same_lower (map upper_char s) s"
  by (simp add: same_lower_def toLowerCase_def lower_upper_char)






subsection \<open>What the string conditions test\<close>




subsection \<open>Member calls and exceptions\<close>

text \<open>A member call on \<^verbatim>\<open>undefined\<close> throws; the optional chain does not.\<close>

lemma call_undefined: "call None m = Inl TypeError"
  by (simp add: call_def)

lemma opt_call_undefined: "opt_call None m = Inr None"
  by (simp add: opt_call_def)

lemma unguarded_access_throws:
  "and_then (call (returnReason bareContext) (\<lambda>s. Inr (toLowerCase s)))
     (\<lambda>x. Inr (Some (x = v))) = Inl TypeError"
  by (simp add: and_then_def call_def bareContext_def)

lemma some_run_returns:
  "(\<And>x. x \<in> set xs \<Longrightarrow> callback x = Inr (f x)) \<Longrightarrow>
     some_run xs callback = Inr (array_some xs (\<lambda>x. truthy (f x)))"
  by (induction xs) auto

lemma some_run_pure:
  "some_run xs (\<lambda>x. Inr (f x)) = Inr (array_some xs (\<lambda>x. truthy (f x)))"
  by (rule some_run_returns) simp

lemma opt_call_returns: "opt_call recv (\<lambda>v. Inr (f v)) = Inr (opt_chain recv f)"
  by (cases recv) (simp_all add: opt_call_def opt_chain_def)

lemma truthy_Some: "truthy (Some b) = b"
  by (simp add: truthy_def)

subsection \<open>Numbers\<close>

lemma num_less_irrefl: "\<not> num_less x x"
  by (cases x) simp_all

lemma parseFloat_100: "parseFloat ''100'' = Finite 100"
  by code_simp

lemma parseFloat_not_a_number: "parseFloat ''not-a-number'' = NaN"
  by code_simp

subsection \<open>The sort and the loop of the selector\<close>

lemma sort_insert_insort:
  "sort_insert (\<lambda>a b. priority a - priority b) x ys = insort_key priority x ys"
  by (induction ys) simp_all

lemma array_sort_sort_key:
  "array_sort (\<lambda>a b. priority a - priority b) xs = sort_key priority xs"
  by (induction xs) (simp_all add: sort_insert_insort)

lemma first_match_find: "first_match ys c = first_matching_destination ys c"
  by (induction ys) (simp_all add: first_matching_destination_def)

lemma stable_priority_sort_sort_key: "stable_priority_sort xs (sort_key priority xs)"
  by (simp add: stable_priority_sort_def sort_key_stable)

text \<open>A stable sort by priority has one result only.\<close>

lemma stable_priority_sort_unique:
  assumes "stable_priority_sort xs ys"
  shows "ys = sort_key priority xs"
proof -
  have m: "mset ys = mset xs" and s: "sorted (map priority ys)"
    and f: "\<And>k. k \<in> set xs \<Longrightarrow> filter (\<lambda>x. priority x = priority k) ys
                        = filter (\<lambda>x. priority x = priority k) xs"
    using assms by (simp_all add: stable_priority_sort_def)
  have "sort_key priority xs = ys"
  proof (rule properties_for_sort_key [OF m _ s])
    fix k
    assume "k \<in> set ys"
    then have "k \<in> set xs" using m by (metis set_mset_mset)
    from f [OF this]
    show "filter (\<lambda>x. priority k = priority x) ys = filter (\<lambda>x. priority k = priority x) xs"
      by (simp add: eq_commute [of "priority k"])
  qed
  then show ?thesis by simp
qed

lemma selector_rules_sorted:
  "stable_priority_sort (filter isActive [rule_1, rule_2]) [rule_2, rule_1]"
  by (simp add: stable_priority_sort_def rule_1_def rule_2_def mockRoutingRule_def)

lemma dangling_rules_sorted:
  "stable_priority_sort (filter isActive [rule_1, rule_dangling]) ([] @ rule_dangling # [rule_1])"
  by (simp add: stable_priority_sort_def rule_1_def rule_dangling_def mockRoutingRule_def)

lemma rule_1_matches: "evaluateCondition rule_1 selectorContext"
  by code_simp

lemma rule_2_matches: "evaluateCondition rule_2 selectorContext"
  by code_simp

lemma rule_dangling_matches: "evaluateCondition rule_dangling selectorContext"
  by code_simp

section \<open>The rule selector\<close>

text \<open>
  Claim C1. For every list of rules and every context, \<open>findMatchingDestination\<close> equals
  the reference algorithm: restrict to the rules with \<open>isActive\<close>, sort them ascending
  by priority with a stable sort, and return the destination of the first rule in that
  order whose condition evaluates to true; if no rule matches, or the list is empty, return
  \<^verbatim>\<open>null\<close>. The stable sort exists, and whatever list \<open>ys\<close> is the stably sorted
  list of active rules, the selector returns what the first match in \<open>ys\<close> gives.
\<close>

theorem findMatchingDestination_reference:
  "(\<exists>ys. stable_priority_sort (filter isActive rules) ys)
   \<and> (\<forall>ys. stable_priority_sort (filter isActive rules) ys \<longrightarrow>
          findMatchingDestination rules c = first_matching_destination ys c)
   \<and> findMatchingDestination [] c = None"
proof (intro conjI allI impI)
  show "\<exists>ys. stable_priority_sort (filter isActive rules) ys"
    using stable_priority_sort_sort_key by blast
next
  fix ys
  assume "stable_priority_sort (filter isActive rules) ys"
  then have "ys = sort_key priority (filter isActive rules)"
    by (rule stable_priority_sort_unique)
  then show "findMatchingDestination rules c = first_matching_destination ys c"
    by (simp add: findMatchingDestination_def array_sort_sort_key first_match_find)
next
  show "findMatchingDestination [] c = None"
    by (simp add: findMatchingDestination_def)
qed

theorem findMatchingDestination_reference_witness:
  "stable_priority_sort (filter isActive [rule_1, rule_2]) [rule_2, rule_1]
   \<and> findMatchingDestination [rule_1, rule_2] selectorContext = Some destA"
proof -
  have "findMatchingDestination [rule_1, rule_2] selectorContext
          = first_matching_destination [rule_2, rule_1] selectorContext"
    using findMatchingDestination_reference [of "[rule_1, rule_2]" selectorContext]
      selector_rules_sorted by blast
  also have "\<dots> = Some destA"
    by (simp add: first_matching_destination_def rule_2_matches) (simp add: rule_2_def)
  finally show ?thesis using selector_rules_sorted by simp
qed

text \<open>
  Claim C8. \<open>findMatchingDestination\<close> makes no existence check on the matched rule's
  destination: when, in the stably sorted active rules, \<open>r\<close> is the first rule whose
  condition holds, the result is the \<open>destination\<close> field of \<open>r\<close> as it is. If that
  field is \<^verbatim>\<open>null\<close>, \<^verbatim>\<open>null\<close> is returned, whatever rules come later.
\<close>

theorem dangling_destination_propagates:
  assumes "stable_priority_sort (filter isActive rules) (before @ r # later)"
    and "\<forall>x\<in>set before. \<not> evaluateCondition x c"
    and "evaluateCondition r c"
  shows "findMatchingDestination rules c = destination r"
proof -
  have "before @ r # later = sort_key priority (filter isActive rules)"
    using assms(1) by (rule stable_priority_sort_unique)
  then have "findMatchingDestination rules c = first_match (before @ r # later) c"
    by (simp add: findMatchingDestination_def array_sort_sort_key)
  also have "\<dots> = destination r"
    using assms(2,3) by (induction before) simp_all
  finally show ?thesis .
qed

theorem dangling_destination_propagates_witness:
  "stable_priority_sort (filter isActive [rule_1, rule_dangling]) ([] @ rule_dangling # [rule_1])
   \<and> evaluateCondition rule_dangling selectorContext
   \<and> destination rule_dangling = None
   \<and> evaluateCondition rule_1 selectorContext \<and> destination rule_1 = Some destB
   \<and> findMatchingDestination [rule_1, rule_dangling] selectorContext = None"
proof -
  have "findMatchingDestination [rule_1, rule_dangling] selectorContext = destination rule_dangling"
    by (rule dangling_destination_propagates [OF dangling_rules_sorted _ rule_dangling_matches])
      simp
  then show ?thesis
    using dangling_rules_sorted rule_dangling_matches rule_1_matches
    by (simp add: rule_dangling_def rule_1_def)
qed

section \<open>The condition evaluator\<close>

text \<open>
  Claim C2. \<open>evaluateCondition\<close> is a total function: for every rule (any
  \<open>conditionType\<close>, any \<open>conditionValue\<close>) and every context (any combination of set
  and unset optional fields) it returns a boolean and never throws; for every rule whose
  type is none of the eight recognised ones it returns false in every context. With
  \<^verbatim>\<open>undefined\<close> and \<^verbatim>\<open>TypeError\<close> kept as values (\<open>evaluateCondition_run\<close>), the
  outcome is never an exception and never \<^verbatim>\<open>undefined\<close>: it is the boolean
  \<open>evaluateCondition\<close> computes.
\<close>

theorem evaluateCondition_total:
  "(\<exists>b. evaluateCondition_run r c = Inr (Some b))
   \<and> evaluateCondition_run r c = Inr (Some (evaluateCondition r c))
   \<and> (conditionType r \<notin> set condition_types \<longrightarrow>
        evaluateCondition_run r c = Inr (Some False) \<and> evaluateCondition r c = False)"
proof -
  have run: "evaluateCondition_run r c = Inr (Some (evaluateCondition r c))"
    unfolding evaluateCondition_run_def evaluateCondition_def
    by (simp add: and_then_def call_def Let_def some_run_pure opt_call_returns truthy_Some)
  have "conditionType r \<notin> set condition_types \<longrightarrow> evaluateCondition r c = False"
    by (auto simp: evaluateCondition_def condition_types_def)
  with run show ?thesis by simp
qed

theorem evaluateCondition_total_witness:
  "conditionType (mockRoutingRule\<lparr>conditionType := ''unknown_type''\<rparr>) \<notin> set condition_types
   \<and> evaluateCondition_run (mockRoutingRule\<lparr>conditionType := ''unknown_type''\<rparr>) baseContext
       = Inr (Some False)
   \<and> evaluateCondition_run mockRoutingRule baseContext = Inr (Some True)
   \<and> evaluateCondition_run mockRoutingRule bareContext = Inr (Some False)
   \<and> evaluateCondition_run (mockRoutingRule\<lparr>conditionType := ''customer_tag'',
         conditionValue := ''vip''\<rparr>) selectorContext = Inr (Some False)"
proof -
  have u: "conditionType (mockRoutingRule\<lparr>conditionType := ''unknown_type''\<rparr>)
      \<notin> set condition_types"
    by (simp add: mockRoutingRule_def condition_types_def)
  have 1: "evaluateCondition mockRoutingRule baseContext"
    by code_simp
  have 2: "\<not> evaluateCondition mockRoutingRule bareContext"
    by code_simp
  have 3: "\<not> evaluateCondition (mockRoutingRule\<lparr>conditionType := ''customer_tag'',
         conditionValue := ''vip''\<rparr>) selectorContext"
    by code_simp
  from u 1 2 3
    evaluateCondition_total [of "mockRoutingRule\<lparr>conditionType := ''unknown_type''\<rparr>" baseContext]
    evaluateCondition_total [of mockRoutingRule baseContext]
    evaluateCondition_total [of mockRoutingRule bareContext]
    evaluateCondition_total [of "mockRoutingRule\<lparr>conditionType := ''customer_tag'',
         conditionValue := ''vip''\<rparr>" selectorContext]
  show ?thesis by simp
qed

text \<open>
  Claim C3. For a rule of type \<^verbatim>\<open>order_value_above\<close>, \<open>evaluateCondition\<close> is true
  iff \<open>conditionValue\<close> parses as a number \<open>t\<close> and \<open>orderValue > t\<close>, strictly; for
  \<^verbatim>\<open>order_value_below\<close>, iff the parse succeeds and \<open>orderValue < t\<close>, strictly. So
  when the parse fails the result is false in every context, and when \<open>orderValue\<close> equals
  the threshold neither type matches.
\<close>

theorem order_value_thresholds:
  "(conditionType r = ''order_value_above'' \<longrightarrow>
      (evaluateCondition r c \<longleftrightarrow>
         parseFloat (conditionValue r) \<noteq> NaN
         \<and> num_less (parseFloat (conditionValue r)) (orderValue c)))
   \<and> (conditionType r = ''order_value_below'' \<longrightarrow>
      (evaluateCondition r c \<longleftrightarrow>
         parseFloat (conditionValue r) \<noteq> NaN
         \<and> num_less (orderValue c) (parseFloat (conditionValue r))))
   \<and> ((conditionType r = ''order_value_above'' \<or> conditionType r = ''order_value_below'')
        \<and> (parseFloat (conditionValue r) = NaN \<or> orderValue c = parseFloat (conditionValue r))
      \<longrightarrow> \<not> evaluateCondition r c)"
  by (auto simp: evaluateCondition_def isNaN_def num_greater_def num_less_irrefl Let_def)

theorem order_value_thresholds_witness:
  "conditionType (mockRoutingRule\<lparr>conditionType := ''order_value_above'', conditionValue := ''100''\<rparr>)
     = ''order_value_above''
   \<and> \<not> evaluateCondition
         (mockRoutingRule\<lparr>conditionType := ''order_value_above'', conditionValue := ''100''\<rparr>)
         baseContext
   \<and> evaluateCondition
         (mockRoutingRule\<lparr>conditionType := ''order_value_above'', conditionValue := ''100''\<rparr>)
         (baseContext\<lparr>orderValue := Finite (10001 / 100)\<rparr>)
   \<and> \<not> evaluateCondition
         (mockRoutingRule\<lparr>conditionType := ''order_value_below'', conditionValue := ''100''\<rparr>)
         baseContext
   \<and> \<not> evaluateCondition
         (mockRoutingRule\<lparr>conditionType := ''order_value_above'',
            conditionValue := ''not-a-number''\<rparr>)
         baseContext"
  using
    order_value_thresholds [of "mockRoutingRule\<lparr>conditionType := ''order_value_above'',
      conditionValue := ''100''\<rparr>" baseContext]
    order_value_thresholds [of "mockRoutingRule\<lparr>conditionType := ''order_value_above'',
      conditionValue := ''100''\<rparr>" "baseContext\<lparr>orderValue := Finite (10001 / 100)\<rparr>"]
    order_value_thresholds [of "mockRoutingRule\<lparr>conditionType := ''order_value_below'',
      conditionValue := ''100''\<rparr>" baseContext]
    order_value_thresholds [of "mockRoutingRule\<lparr>conditionType := ''order_value_above'',
      conditionValue := ''not-a-number''\<rparr>" baseContext]
  by (simp add: mockRoutingRule_def baseContext_def parseFloat_100 parseFloat_not_a_number)





text \<open>
  Claim C5. For a rule of type \<^verbatim>\<open>customer_tag\<close>: if \<open>customerTags\<close> is unset,
  \<open>evaluateCondition\<close> returns false (not an error); if it is set, the result is true iff
  some tag, lower-cased, equals the trimmed, lower-cased \<open>conditionValue\<close>. Unset and
  empty \<open>customerTags\<close> are both a non-match, and the context builder hands on an unset
  \<open>customerTags\<close> as unset: it is \<open>tags\<close> of the customer data, where there is one.
\<close>

theorem customer_tag_semantics:
  assumes "conditionType r = ''customer_tag''"
  shows "(customerTags c = None \<longrightarrow> \<not> evaluateCondition r c)
    \<and> (\<forall>ts. customerTags c = Some ts \<longrightarrow>
          (evaluateCondition r c \<longleftrightarrow>
             (\<exists>t\<in>set ts. toLowerCase t = trim (toLowerCase (conditionValue r)))))
    \<and> (customerTags c = Some [] \<longrightarrow> \<not> evaluateCondition r c)
    \<and> customerTags (buildRoutingContext od rd cd) = Option.bind cd tags"
  using assms
  by (auto simp: evaluateCondition_def array_some_iff opt_chain_def nullish_def
        buildRoutingContext_def split: option.splits)

theorem customer_tag_semantics_witness:
  "conditionType (mockRoutingRule\<lparr>conditionType := ''customer_tag'', conditionValue := '' VIP ''\<rparr>)
     = ''customer_tag''
   \<and> customerTags baseContext = Some [''vip'', ''wholesale'']
   \<and> evaluateCondition
        (mockRoutingRule\<lparr>conditionType := ''customer_tag'', conditionValue := '' VIP ''\<rparr>) baseContext
   \<and> customerTags bareContext = None
   \<and> \<not> evaluateCondition
        (mockRoutingRule\<lparr>conditionType := ''customer_tag'', conditionValue := '' VIP ''\<rparr>) bareContext
   \<and> customerTags (buildRoutingContext \<lparr>totalValue = Finite 50, lineItems = []\<rparr>
        \<lparr>reason = None\<rparr> None) = None"
proof -
  let ?r = "mockRoutingRule\<lparr>conditionType := ''customer_tag'', conditionValue := '' VIP ''\<rparr>"
  have t: "conditionType ?r = ''customer_tag''"
    by (simp add: mockRoutingRule_def)
  have n: "trim (toLowerCase (conditionValue ?r)) = ''vip''"
    by code_simp
  have l: "toLowerCase ''vip'' = ''vip''"
    by code_simp
  have b: "customerTags baseContext = Some [''vip'', ''wholesale'']"
    and u: "customerTags bareContext = None"
    by (simp_all add: baseContext_def bareContext_def)
  from customer_tag_semantics [OF t, of baseContext] b n l
  have 1: "evaluateCondition ?r baseContext" by simp
  from customer_tag_semantics [OF t, of bareContext] u
  have 2: "\<not> evaluateCondition ?r bareContext" by simp
  from customer_tag_semantics [OF t, of baseContext "\<lparr>totalValue = Finite 50, lineItems = []\<rparr>"
      "\<lparr>reason = None\<rparr>" None]
  have 3: "customerTags (buildRoutingContext \<lparr>totalValue = Finite 50, lineItems = []\<rparr>
        \<lparr>reason = None\<rparr> None) = None" by simp
  from t b u 1 2 3 show ?thesis by simp
qed

text \<open>
  Claim C9. The result of \<open>evaluateCondition\<close> depends only on the rule's
  \<open>conditionType\<close> and \<open>conditionValue\<close> and on the context: two rules that agree on
  these two fields evaluate alike in every context, whatever their id, name, priority,
  \<open>isActive\<close> or \<open>destinationId\<close>. In particular the condition of an inactive rule
  still evaluates; skipping inactive rules is the selector's filter.
\<close>

theorem evaluateCondition_condition_only:
  "conditionType r = conditionType r' \<Longrightarrow> conditionValue r = conditionValue r'
   \<Longrightarrow> evaluateCondition r c = evaluateCondition r' c"
  by (simp add: evaluateCondition_def)

theorem evaluateCondition_condition_only_witness:
  "conditionType (mockRoutingRule\<lparr>rule_id := ''other'', rule_name := ''renamed'', priority := 7,
       isActive := False, destinationId := ''dest_9''\<rparr>) = conditionType mockRoutingRule
   \<and> conditionValue (mockRoutingRule\<lparr>rule_id := ''other'', rule_name := ''renamed'', priority := 7,
       isActive := False, destinationId := ''dest_9''\<rparr>) = conditionValue mockRoutingRule
   \<and> evaluateCondition mockRoutingRule baseContext
   \<and> evaluateCondition (mockRoutingRule\<lparr>rule_id := ''other'', rule_name := ''renamed'', priority := 7,
       isActive := False, destinationId := ''dest_9''\<rparr>) baseContext"
proof -
  let ?r = "mockRoutingRule\<lparr>rule_id := ''other'', rule_name := ''renamed'', priority := 7,
       isActive := False, destinationId := ''dest_9''\<rparr>"
  have t: "conditionType ?r = conditionType mockRoutingRule"
    and v: "conditionValue ?r = conditionValue mockRoutingRule"
    by simp_all
  have e: "evaluateCondition mockRoutingRule baseContext"
    by code_simp
  from evaluateCondition_condition_only [OF t v, of baseContext] e
  have "evaluateCondition ?r baseContext" by simp
  with t v e show ?thesis by simp
qed

text \<open>
  Claim C10. For a rule of type \<^verbatim>\<open>sku_contains\<close> whose \<open>conditionValue\<close> is empty
  or consists of white space only, \<open>evaluateCondition\<close> is true iff some item of the
  context has its \<open>sku\<close> set: every sku string, the empty one too, contains the empty
  normalized value. Such a rule matches every return with an sku, not none.
\<close>

theorem sku_contains_blank_value:
  assumes "conditionType r = ''sku_contains''"
    and "\<forall>ch\<in>set (conditionValue r). is_ws ch"
  shows "evaluateCondition r c \<longleftrightarrow> (\<exists>item\<in>set (items c). sku item \<noteq> None)"
proof -
  have "trim (toLowerCase (conditionValue r)) = []"
    using assms(2) by (simp add: toLowerCase_ws trim_ws)
  then show ?thesis
    using assms(1)
    by (auto simp: evaluateCondition_def array_some_iff truthy_def opt_chain_def
        str_includes_Nil split: option.splits)
qed

theorem sku_contains_blank_value_witness:
  "conditionType (mockRoutingRule\<lparr>conditionType := ''sku_contains'', conditionValue := ''  ''\<rparr>)
     = ''sku_contains''
   \<and> conditionValue
        (mockRoutingRule\<lparr>conditionType := ''sku_contains'', conditionValue := ''  ''\<rparr>) = ''  ''
   \<and> is_ws (CHR '' '')
   \<and> evaluateCondition
        (mockRoutingRule\<lparr>conditionType := ''sku_contains'', conditionValue := ''  ''\<rparr>) baseContext
   \<and> \<not> evaluateCondition
        (mockRoutingRule\<lparr>conditionType := ''sku_contains'', conditionValue := ''  ''\<rparr>) bareContext"
proof -
  let ?r = "mockRoutingRule\<lparr>conditionType := ''sku_contains'', conditionValue := ''  ''\<rparr>"
  have t: "conditionType ?r = ''sku_contains''"
    by (simp add: mockRoutingRule_def)
  have w: "\<forall>ch\<in>set (conditionValue ?r). is_ws ch"
    by (simp add: mockRoutingRule_def is_ws_def)
  from sku_contains_blank_value [OF t w, of baseContext]
  have 1: "evaluateCondition ?r baseContext" by (simp add: baseContext_def)
  from sku_contains_blank_value [OF t w, of bareContext]
  have 2: "\<not> evaluateCondition ?r bareContext" by (simp add: bareContext_def)
  have v: "conditionValue ?r = ''  ''"
    by (simp add: mockRoutingRule_def)
  have s: "is_ws (CHR '' '')"
    by (simp add: is_ws_def)
  from t v s 1 2 show ?thesis by blast
qed

section \<open>The rule-set validator\<close>

subsection \<open>Decimal numerals are injective\<close>

lemma string_of_nat_ne: "string_of_nat n \<noteq> []"
  by (subst string_of_nat.simps) simp

lemma digit_char_inj:
  "a < 10 \<Longrightarrow> b < 10 \<Longrightarrow> char_of (48 + a :: nat) = char_of (48 + b :: nat) \<Longrightarrow> a = b"
proof -
  assume a: "a < 10" and b: "b < 10" and e: "char_of (48 + a :: nat) = char_of (48 + b :: nat)"
  from e have "(of_char (char_of (48 + a)) :: nat) = of_char (char_of (48 + b))" by simp
  then have "(48 + a) mod 256 = (48 + b) mod 256" by (simp only: of_char_of)
  with a b show ?thesis by simp
qed

lemma digit_char_not_minus: "d < 10 \<Longrightarrow> char_of (48 + d :: nat) \<noteq> CHR ''-''"
proof
  assume d: "d < 10" and e: "char_of (48 + d :: nat) = CHR ''-''"
  from e have "(of_char (char_of (48 + d)) :: nat) = of_char (CHR ''-'')" by simp
  then have "(48 + d) mod 256 = 45" by (simp only: of_char_of) simp
  with d show False by simp
qed

lemma string_of_nat_no_minus: "CHR ''-'' \<notin> set (string_of_nat n)"
proof (induction n rule: string_of_nat.induct)
  case (1 n)
  show ?case
  proof (cases "n < 10")
    case True
    then show ?thesis
      using digit_char_not_minus [of n] by (subst string_of_nat.simps) auto
  next
    case False
    have "n mod 10 < 10" by simp
    then have "char_of (48 + n mod 10) \<noteq> CHR ''-''" by (rule digit_char_not_minus)
    with False 1 show ?thesis
      by (subst string_of_nat.simps) auto
  qed
qed

lemma string_of_nat_inj: "string_of_nat m = string_of_nat n \<Longrightarrow> m = n"
proof (induction m arbitrary: n rule: string_of_nat.induct)
  case (1 m)
  show ?case
  proof (cases "m < 10")
    case m: True
    show ?thesis
    proof (cases "n < 10")
      case True
      with m 1(2) show ?thesis
        by (auto simp: string_of_nat.simps [of m] string_of_nat.simps [of n] dest: digit_char_inj)
    next
      case False
      with m 1(2) have "[char_of (48 + m)] = string_of_nat (n div 10) @ [char_of (48 + n mod 10)]"
        by (simp add: string_of_nat.simps [of m] string_of_nat.simps [of n])
      then have "string_of_nat (n div 10) = []" by simp
      then show ?thesis by (simp add: string_of_nat_ne)
    qed
  next
    case m: False
    show ?thesis
    proof (cases "n < 10")
      case True
      with m 1(2) have "string_of_nat (m div 10) @ [char_of (48 + m mod 10)] = [char_of (48 + n)]"
        by (simp add: string_of_nat.simps [of m] string_of_nat.simps [of n])
      then have "string_of_nat (m div 10) = []" by simp
      then show ?thesis by (simp add: string_of_nat_ne)
    next
      case False
      with m 1(2) have e: "string_of_nat (m div 10) = string_of_nat (n div 10)"
        and d: "char_of (48 + m mod 10) = char_of (48 + n mod 10)"
        by (simp_all add: string_of_nat.simps [of m] string_of_nat.simps [of n])
      from 1(1) [OF m e] have q: "m div 10 = n div 10" .
      have "m mod 10 = n mod 10"
        by (rule digit_char_inj [OF _ _ d]) simp_all
      with q show ?thesis by (metis div_mult_mod_eq)
    qed
  qed
qed

lemma string_of_int_inj: "string_of_int i = string_of_int j \<Longrightarrow> i = j"
proof -
  assume e: "string_of_int i = string_of_int j"
  have nm: "\<And>n s. CHR ''-'' # s \<noteq> string_of_nat n"
    using string_of_nat_no_minus by (metis list.set_intros(1))
  show ?thesis
  proof (cases "i < 0"; cases "j < 0")
    assume "i < 0" "j < 0"
    with e have "nat (- i) = nat (- j)" by (simp add: string_of_int_def string_of_nat_inj)
    with \<open>i < 0\<close> \<open>j < 0\<close> show ?thesis by simp
  next
    assume "i < 0" "\<not> j < 0"
    with e nm show ?thesis by (simp add: string_of_int_def)
  next
    assume "\<not> i < 0" "j < 0"
    with e nm [of "string_of_nat (nat (- j))" "nat i"] show ?thesis by (simp add: string_of_int_def)
  next
    assume "\<not> i < 0" "\<not> j < 0"
    with e have "nat i = nat j" by (simp add: string_of_int_def string_of_nat_inj)
    with \<open>\<not> i < 0\<close> \<open>\<not> j < 0\<close> show ?thesis by simp
  qed
qed

subsection \<open>The issue texts and the loops that add them\<close>

lemma duplicate_priority_issue_inj:
  "duplicate_priority_issue p = duplicate_priority_issue q \<Longrightarrow> p = q"
  by (simp add: duplicate_priority_issue_def string_of_int_inj)

lemma hd_duplicate_priority_issue: "hd (duplicate_priority_issue p) = CHR ''M''"
  by (simp add: duplicate_priority_issue_def)

lemma hd_deleted_destination_issue: "hd (deleted_destination_issue n) = CHR ''R''"
  by (simp add: deleted_destination_issue_def)

lemma hd_invalid_numeric_issue: "hd (invalid_numeric_issue n v) = CHR ''R''"
  by (simp add: invalid_numeric_issue_def)

lemma check_rule_mono: "set acc \<subseteq> set (check_rule r acc)"
  by (auto simp: check_rule_def Let_def)

lemma check_rule_new: "x \<in> set (check_rule r acc) \<Longrightarrow> x \<in> set acc \<or> hd x = CHR ''R''"
  by (auto simp: check_rule_def Let_def hd_deleted_destination_issue hd_invalid_numeric_issue
      split: if_splits)

lemma check_rules_mono: "set acc \<subseteq> set (check_rules rs acc)"
proof (induction rs arbitrary: acc)
  case Nil
  then show ?case by simp
next
  case (Cons r rs)
  have "set acc \<subseteq> set (check_rule r acc)" by (rule check_rule_mono)
  also have "\<dots> \<subseteq> set (check_rules rs (check_rule r acc))" by (rule Cons.IH)
  finally show ?case by simp
qed

lemma check_rules_new:
  "x \<in> set (check_rules rs acc) \<Longrightarrow> x \<in> set acc \<or> hd x = CHR ''R''"
proof (induction rs arbitrary: acc)
  case Nil
  then show ?case by simp
next
  case (Cons r rs)
  from Cons.prems have "x \<in> set (check_rules rs (check_rule r acc))" by simp
  from Cons.IH [OF this] show ?case using check_rule_new by blast
qed

lemma set_report_duplicates:
  "set (report_duplicates m acc)
     = set acc \<union> {duplicate_priority_issue p |p c. (p, c) \<in> set m \<and> 1 < c}"
  by (induction m acc rule: report_duplicates.induct) auto

subsection \<open>The priority counts\<close>

lemma map_get_map_set:
  "map_get (map_set m k v) k' = (if k' = k then Some v else map_get m k')"
  by (induction m k v rule: map_set.induct) auto

lemma keys_map_set: "set (map fst (map_set m k v)) = insert k (set (map fst m))"
  by (induction m k v rule: map_set.induct) auto

lemma distinct_map_set: "distinct (map fst m) \<Longrightarrow> distinct (map fst (map_set m k v))"
proof (induction m k v rule: map_set.induct)
  case (1 k v)
  then show ?case by simp
next
  case (2 k' v' m k v)
  then show ?case
    using keys_map_set [of m k v] by (auto simp del: set_map)
qed

lemma map_get_None: "map_get m k = None \<longleftrightarrow> k \<notin> set (map fst m)"
  by (induction m k rule: map_get.induct) auto

lemma map_get_Some: "distinct (map fst m) \<Longrightarrow> map_get m k = Some v \<longleftrightarrow> (k, v) \<in> set m"
proof (induction m k rule: map_get.induct)
  case (1 k)
  then show ?case by simp
next
  case (2 k' v' m k)
  then show ?case by (auto simp: rev_image_eqI)
qed

lemma distinct_count_priorities:
  "distinct (map fst m) \<Longrightarrow> distinct (map fst (count_priorities xs m))"
  by (induction xs arbitrary: m) (simp_all add: distinct_map_set Let_def)

lemma map_get_count_priorities:
  "map_get (count_priorities xs m) p =
     (if filter (\<lambda>r. priority r = p) xs = [] then map_get m p
      else Some (or_zero (map_get m p) + length (filter (\<lambda>r. priority r = p) xs)))"
proof (induction xs arbitrary: m)
  case Nil
  then show ?case by simp
next
  case (Cons x xs)
  show ?case
    by (simp add: Cons.IH Let_def map_get_map_set or_zero_def)
qed

lemma count_priorities_entries:
  "(p, c) \<in> set (count_priorities xs []) \<longleftrightarrow>
     0 < c \<and> c = length (filter (\<lambda>r. priority r = p) xs)"
proof -
  have d: "distinct (map fst (count_priorities xs []))"
    by (rule distinct_count_priorities) simp
  show ?thesis
    unfolding map_get_Some [OF d, symmetric] map_get_count_priorities
    by (auto simp: or_zero_def)
qed

subsection \<open>The issues of a report\<close>

lemma hd_no_destinations_issue: "hd no_destinations_issue = CHR ''N''"
  by (simp add: no_destinations_issue_def)

lemma hd_no_default_issue: "hd no_default_issue = CHR ''N''"
  by (simp add: no_default_issue_def)

lemma no_issues_distinct: "no_destinations_issue \<noteq> no_default_issue"
  by (simp add: no_destinations_issue_def no_default_issue_def)

lemma initial_issues_hd: "x \<in> set (initial_issues dests) \<Longrightarrow> hd x = CHR ''N''"
  by (auto simp: initial_issues_def hd_no_destinations_issue hd_no_default_issue split: if_splits)

lemma issues_validate:
  "issues (validateRoutingRules rules dests) =
     report_duplicates (count_priorities (filter isActive rules) [])
       (check_rules rules (initial_issues dests))"
  by (simp add: validateRoutingRules_def Let_def array_some_iff initial_issues_def)

lemma valid_validate:
  "valid (validateRoutingRules rules dests) \<longleftrightarrow> issues (validateRoutingRules rules dests) = []"
  by (simp add: validateRoutingRules_def Let_def)

lemma in_issues_iff:
  "x \<in> set (issues (validateRoutingRules rules dests)) \<longleftrightarrow>
     x \<in> set (check_rules rules (initial_issues dests))
     \<or> (\<exists>p. x = duplicate_priority_issue p
            \<and> 1 < length (filter (\<lambda>r. priority r = p) (filter isActive rules)))"
  unfolding issues_validate set_report_duplicates
  by (auto simp: count_priorities_entries)

lemma duplicate_not_checked:
  "duplicate_priority_issue p \<notin> set (check_rules rules (initial_issues dests))"
proof
  assume "duplicate_priority_issue p \<in> set (check_rules rules (initial_issues dests))"
  from check_rules_new [OF this]
  have "duplicate_priority_issue p \<in> set (initial_issues dests) \<or> CHR ''M'' = CHR ''R''"
    by (simp add: hd_duplicate_priority_issue)
  then have "duplicate_priority_issue p \<in> set (initial_issues dests)" by simp
  from initial_issues_hd [OF this] show False by (simp add: hd_duplicate_priority_issue)
qed

lemma initial_issue_kept:
  assumes "hd x = CHR ''N''"
  shows "x \<in> set (issues (validateRoutingRules rules dests)) \<longleftrightarrow> x \<in> set (initial_issues dests)"
proof
  assume "x \<in> set (issues (validateRoutingRules rules dests))"
  then consider "x \<in> set (check_rules rules (initial_issues dests))"
    | p where "x = duplicate_priority_issue p"
    unfolding in_issues_iff by blast
  then show "x \<in> set (initial_issues dests)"
  proof cases
    case 1
    from check_rules_new [OF this] assms show ?thesis by simp
  next
    case 2
    with assms show ?thesis by (simp add: hd_duplicate_priority_issue)
  qed
next
  assume "x \<in> set (initial_issues dests)"
  then have "x \<in> set (check_rules rules (initial_issues dests))"
    using check_rules_mono by blast
  then show "x \<in> set (issues (validateRoutingRules rules dests))"
    unfolding in_issues_iff by blast
qed

text \<open>
  Claim C6. In the validator, the duplicate-priority issue that names the priority \<open>p\<close>
  is emitted iff more than one rule with \<open>isActive\<close> has priority \<open>p\<close>; inactive rules
  do not count, so an active and an inactive rule sharing a priority give no issue. The
  \<open>valid\<close> flag of the report is true iff its list of issues is empty.
\<close>

theorem duplicate_priority_issue_iff:
  "(duplicate_priority_issue p \<in> set (issues (validateRoutingRules rules dests))
      \<longleftrightarrow> 1 < length (filter (\<lambda>r. isActive r \<and> priority r = p) rules))
   \<and> (valid (validateRoutingRules rules dests)
      \<longleftrightarrow> issues (validateRoutingRules rules dests) = [])"
proof
  have f: "filter (\<lambda>r. priority r = q) (filter isActive rules)
         = filter (\<lambda>r. isActive r \<and> priority r = q) rules" for q
    by (simp add: conj_commute)
  show "duplicate_priority_issue p \<in> set (issues (validateRoutingRules rules dests))
      \<longleftrightarrow> 1 < length (filter (\<lambda>r. isActive r \<and> priority r = p) rules)"
    unfolding in_issues_iff f using duplicate_not_checked [of p rules dests]
    by (auto dest: duplicate_priority_issue_inj)
next
  show "valid (validateRoutingRules rules dests)
      \<longleftrightarrow> issues (validateRoutingRules rules dests) = []"
    by (rule valid_validate)
qed

theorem duplicate_priority_issue_iff_witness:
  "duplicate_priority_issue 3
     \<in> set (issues (validateRoutingRules
          [mockRoutingRule\<lparr>priority := 3\<rparr>, mockRoutingRule\<lparr>rule_id := ''rule_b'', priority := 3\<rparr>]
          [mockReturnDestination]))
   \<and> duplicate_priority_issue 3
     \<notin> set (issues (validateRoutingRules
          [mockRoutingRule\<lparr>priority := 3\<rparr>,
           mockRoutingRule\<lparr>rule_id := ''rule_b'', priority := 3, isActive := False\<rparr>]
          [mockReturnDestination]))
   \<and> \<not> valid (validateRoutingRules
          [mockRoutingRule\<lparr>priority := 3\<rparr>, mockRoutingRule\<lparr>rule_id := ''rule_b'', priority := 3\<rparr>]
          [mockReturnDestination])"
proof -
  let ?two = "[mockRoutingRule\<lparr>priority := 3\<rparr>, mockRoutingRule\<lparr>rule_id := ''rule_b'', priority := 3\<rparr>]"
  let ?one = "[mockRoutingRule\<lparr>priority := 3\<rparr>,
           mockRoutingRule\<lparr>rule_id := ''rule_b'', priority := 3, isActive := False\<rparr>]"
  from duplicate_priority_issue_iff [of 3 ?two "[mockReturnDestination]"]
  have 1: "duplicate_priority_issue 3
      \<in> set (issues (validateRoutingRules ?two [mockReturnDestination]))"
    and v: "valid (validateRoutingRules ?two [mockReturnDestination])
      \<longleftrightarrow> issues (validateRoutingRules ?two [mockReturnDestination]) = []"
    by (simp_all add: mockRoutingRule_def)
  from duplicate_priority_issue_iff [of 3 ?one "[mockReturnDestination]"]
  have 2: "duplicate_priority_issue 3
      \<notin> set (issues (validateRoutingRules ?one [mockReturnDestination]))"
    by (simp add: mockRoutingRule_def)
  from 1 have "issues (validateRoutingRules ?two [mockReturnDestination]) \<noteq> []" by auto
  with v have 3: "\<not> valid (validateRoutingRules ?two [mockReturnDestination])" by simp
  from 1 2 3 show ?thesis by blast
qed

text \<open>
  Claim C7. The validator emits the issue "No return destinations configured" (and so
  \<open>valid\<close> is false) exactly when the list of destinations is empty, and the issue
  "No default destination set" exactly when that list is not empty and none of its
  destinations has \<open>isDefault\<close>. When the list is empty only the former is emitted.
\<close>

theorem destination_issues_iff:
  "(no_destinations_issue \<in> set (issues (validateRoutingRules rules dests)) \<longleftrightarrow> dests = [])
   \<and> (no_default_issue \<in> set (issues (validateRoutingRules rules dests))
        \<longleftrightarrow> dests \<noteq> [] \<and> \<not> (\<exists>d\<in>set dests. isDefault d))
   \<and> (dests = [] \<longrightarrow> \<not> valid (validateRoutingRules rules dests))"
proof -
  have a: "no_destinations_issue \<in> set (issues (validateRoutingRules rules dests)) \<longleftrightarrow> dests = []"
    unfolding initial_issue_kept [OF hd_no_destinations_issue]
    using no_issues_distinct by (auto simp: initial_issues_def)
  have b: "no_default_issue \<in> set (issues (validateRoutingRules rules dests))
        \<longleftrightarrow> dests \<noteq> [] \<and> \<not> (\<exists>d\<in>set dests. isDefault d)"
    unfolding initial_issue_kept [OF hd_no_default_issue]
    using no_issues_distinct by (auto simp: initial_issues_def)
  have c: "dests = [] \<longrightarrow> \<not> valid (validateRoutingRules rules dests)"
  proof
    assume "dests = []"
    with a have "no_destinations_issue \<in> set (issues (validateRoutingRules rules dests))" by simp
    then have "issues (validateRoutingRules rules dests) \<noteq> []" by auto
    then show "\<not> valid (validateRoutingRules rules dests)"
      by (simp add: valid_validate)
  qed
  from a b c show ?thesis by blast
qed

theorem destination_issues_iff_witness:
  "no_destinations_issue \<in> set (issues (validateRoutingRules [mockRoutingRule] []))
   \<and> no_default_issue \<notin> set (issues (validateRoutingRules [mockRoutingRule] []))
   \<and> \<not> valid (validateRoutingRules [mockRoutingRule] [])
   \<and> no_destinations_issue \<notin> set (issues (validateRoutingRules [mockRoutingRule] [destA, destB]))
   \<and> no_default_issue \<notin> set (issues (validateRoutingRules [mockRoutingRule] [destA, destB]))
   \<and> no_default_issue \<in> set (issues (validateRoutingRules [mockRoutingRule]
        [destA\<lparr>isDefault := False\<rparr>, destB\<lparr>isDefault := False\<rparr>]))"
  using destination_issues_iff [of "[mockRoutingRule]" "[]"]
    destination_issues_iff [of "[mockRoutingRule]" "[destA, destB]"]
    destination_issues_iff [of "[mockRoutingRule]"
      "[destA\<lparr>isDefault := False\<rparr>, destB\<lparr>isDefault := False\<rparr>]"]
  by (simp add: destA_def destB_def mockReturnDestination_def)

end
